theory Spec2Isabelle
  imports Complex_Main
begin

section \<open>Running-average trackers (utils.py)\<close>

text \<open>
  A shallow embedding of \<^verbatim>\<open>src/utils.py\<close>: the class \<^verbatim>\<open>AverageTracker\<close> and the
  class \<^verbatim>\<open>AverageTrackerGroup\<close>.

  Modelling decisions.
  \<^item> The numeric fields of a tracker are \<open>real\<close> and its arithmetic is exact: the
    rounding, overflow, infinities, NaN and negative zero of binary64 are not modelled
    in \<open>update\<close>. What is proved of \<open>update\<close> below are the properties that do not depend
    on rounding: which assignments are made, in which order, and when the division
    raises. The weight \<open>n\<close> is annotated \<^verbatim>\<open>int\<close> in the source but is added to the float
    \<^verbatim>\<open>count\<close>, and the group passes on whatever the caller's tuple holds; it is a
    \<open>real\<close> here, which covers every integer weight.
  \<^item> Rendering takes the float values of Python as they are: a finite value by its
    exact value, and negative zero, the two infinities and NaN as values of their own.
    \<^verbatim>\<open>__str__\<close> is modelled on the attribute dictionary of a tracker (\<open>str_dict\<close>), which
    can hold any of these; \<open>str_tracker\<close> is its use on a tracker of the model.
  \<^item> A method that mutates \<^verbatim>\<open>self\<close> takes the object and returns the object as it is when
    the call ends, also when the call ends by raising: the result is a pair of
    \<open>Inl error\<close> or \<open>Inr result\<close> and the state left behind.
  \<^item> The \<^verbatim>\<open>OrderedDict\<close> is an association list in insertion order.
  \<^item> Names that start with an underscore lose it: \<^verbatim>\<open>__getitem__\<close> is \<open>getitem\<close>,
    \<^verbatim>\<open>__getattr__\<close> is \<open>getattr\<close>, \<^verbatim>\<open>__call__\<close> is \<open>call\<close>, \<^verbatim>\<open>__str__\<close> is \<open>str_tracker\<close>
    and \<open>str_group\<close>, \<^verbatim>\<open>__repr__\<close> is \<open>repr_group\<close>, \<^verbatim>\<open>_storage\<close> is \<open>storage\<close>. The
    field \<^verbatim>\<open>sum\<close> is \<open>sum'\<close>; the group's \<^verbatim>\<open>update\<close> and \<^verbatim>\<open>reset\<close> are \<open>group_update\<close>
    and \<open>group_reset\<close>.
\<close>

subsection \<open>Errors\<close>

datatype py_error = ZeroDivisionError | KeyError string | TypeError | ValueError | RuntimeError

subsection \<open>AverageTracker\<close>

record tracker =
  name :: string
  val :: real
  sum' :: real
  count :: real
  avg :: real

definition reset :: "tracker \<Rightarrow> tracker" where
  "reset self = self\<lparr>val := 0, sum' := 0, count := 0, avg := 0\<rparr>"

text \<open>
  \<^verbatim>\<open>__init__\<close> stores the name and calls \<^verbatim>\<open>reset\<close>, which creates the four numeric
  fields; the record needs them from the start, so they are given the values \<open>reset\<close>
  overwrites.
\<close>

definition AverageTracker :: "string \<Rightarrow> tracker" where
  "AverageTracker nm = reset \<lparr>name = nm, val = 0, sum' = 0, count = 0, avg = 0\<rparr>"

text \<open>
  \<^verbatim>\<open>update\<close> runs its four assignments in order. The last one divides: Python raises
  \<^verbatim>\<open>ZeroDivisionError\<close> when the divisor is zero, after the first three assignments have
  been made.
\<close>

definition update :: "tracker \<Rightarrow> real \<Rightarrow> real \<Rightarrow> (py_error + unit) \<times> tracker" where
  "update self v n =
     (let s1 = self\<lparr>val := v\<rparr>;
          s2 = s1\<lparr>sum' := sum' s1 + v * n\<rparr>;
          s3 = s2\<lparr>count := count s2 + n\<rparr>
      in if count s3 = 0 then (Inl ZeroDivisionError, s3)
         else (Inr (), s3\<lparr>avg := sum' s3 / count s3\<rparr>))"

definition item :: "tracker \<Rightarrow> real" where
  "item self = avg self"

definition call :: "tracker \<Rightarrow> real" where
  "call self = item self"

text \<open>
  A caller's sequence of \<^verbatim>\<open>update(v, n)\<close> calls on one tracker: the state after every
  call has ended, whether it returned or raised (a caller that does not catch the error
  stops at the failing call, which is the state after a shorter sequence).
\<close>

fun run_updates :: "tracker \<Rightarrow> (real \<times> real) list \<Rightarrow> tracker" where
  "run_updates self [] = self"
| "run_updates self ((v, n) # calls) = run_updates (snd (update self v n)) calls"

subsection \<open>Rendering: the fragment of \<^verbatim>\<open>str.format\<close> the source uses\<close>

text \<open>
  \<^verbatim>\<open>__str__\<close> is \<^verbatim>\<open>'{name} {val:.4f} ({avg:.4f})'.format(**self.__dict__)\<close>. The
  interpreter below reads a format string made of literal text and replacement fields
  \<^verbatim>\<open>{key}\<close> or \<^verbatim>\<open>{key:spec}\<close>, looks each key up in the keyword arguments, and formats
  a string with the empty spec and a number with a spec \<^verbatim>\<open>.<digits>f\<close>. Brace escapes,
  conversions and the other format specs are outside the fragment (\<open>ValueError\<close> here).

  \<^verbatim>\<open>format(x, '.pf')\<close> of a finite \<open>x\<close> writes the decimal numeral with \<open>p\<close> fraction
  digits nearest to the exact value of \<open>x\<close>, a tie going to the even last digit, with a
  minus sign when the sign bit of \<open>x\<close> is set (so also for negative zero); an infinity is
  written \<^verbatim>\<open>inf\<close> or \<^verbatim>\<open>-inf\<close> and a NaN \<^verbatim>\<open>nan\<close>.
\<close>

definition digit_char :: "nat \<Rightarrow> char" where
  "digit_char d = ''0123456789'' ! d"

fun str_nat :: "nat \<Rightarrow> string" where
  "str_nat n = (if n < 10 then [digit_char n] else str_nat (n div 10) @ [digit_char (n mod 10)])"

declare str_nat.simps [simp del]

definition zfill :: "nat \<Rightarrow> string \<Rightarrow> string" where
  "zfill w s = replicate (w - length s) (CHR ''0'') @ s"

definition round_half_even :: "real \<Rightarrow> int" where
  "round_half_even x =
     (let f = \<lfloor>x\<rfloor>; d = x - of_int f
      in if d < 1 / 2 then f else if 1 / 2 < d then f + 1 else if even f then f else f + 1)"

definition format_f :: "nat \<Rightarrow> real \<Rightarrow> string" where
  "format_f p x =
     (let m = nat (round_half_even (\<bar>x\<bar> * 10 ^ p))
      in (if x < 0 then ''-'' else '''') @ str_nat (m div 10 ^ p) @
         (if p = 0 then '''' else ''.'' @ zfill p (str_nat (m mod 10 ^ p))))"

datatype py_float = Finite real | NegZero | PosInf | NegInf | NaN

definition format_float :: "nat \<Rightarrow> py_float \<Rightarrow> string" where
  "format_float p v =
     (case v of
        Finite x \<Rightarrow> format_f p x
      | NegZero \<Rightarrow> ''-'' @ format_f p 0
      | PosInf \<Rightarrow> ''inf''
      | NegInf \<Rightarrow> ''-inf''
      | NaN \<Rightarrow> ''nan'')"

datatype pyobj = PyStr string | PyFloat py_float

definition is_digit :: "char \<Rightarrow> bool" where
  "is_digit c = (c \<in> set ''0123456789'')"

definition digit_val :: "char \<Rightarrow> nat" where
  "digit_val c =
     (if c = CHR ''1'' then 1 else if c = CHR ''2'' then 2 else if c = CHR ''3'' then 3
      else if c = CHR ''4'' then 4 else if c = CHR ''5'' then 5 else if c = CHR ''6'' then 6
      else if c = CHR ''7'' then 7 else if c = CHR ''8'' then 8 else if c = CHR ''9'' then 9
      else 0)"

definition int_of_str :: "string \<Rightarrow> nat" where
  "int_of_str s = foldl (\<lambda>a c. 10 * a + digit_val c) 0 s"

definition format_field :: "pyobj \<Rightarrow> string \<Rightarrow> py_error + string" where
  "format_field obj spec =
     (case obj of
        PyStr s \<Rightarrow> if spec = '''' then Inr s else Inl ValueError
      | PyFloat v \<Rightarrow>
          (case spec of
             [] \<Rightarrow> Inl ValueError
           | c # rest \<Rightarrow>
               if c = CHR ''.'' \<and> rest \<noteq> [] \<and> last rest = CHR ''f'' \<and> butlast rest \<noteq> []
                  \<and> list_all is_digit (butlast rest)
               then Inr (format_float (int_of_str (butlast rest)) v)
               else Inl ValueError))"

definition replace_field :: "string \<Rightarrow> (string \<times> pyobj) list \<Rightarrow> py_error + string" where
  "replace_field field kwargs =
     (let key = takeWhile (\<lambda>c. c \<noteq> CHR '':'') field;
          spec = drop 1 (dropWhile (\<lambda>c. c \<noteq> CHR '':'') field)
      in case map_of kwargs key of
           None \<Rightarrow> Inl (KeyError key)
         | Some obj \<Rightarrow> format_field obj spec)"

fun fmt_text :: "string \<Rightarrow> (string \<times> pyobj) list \<Rightarrow> py_error + string"
  and fmt_field :: "string \<Rightarrow> string \<Rightarrow> (string \<times> pyobj) list \<Rightarrow> py_error + string" where
  "fmt_text [] kwargs = Inr []"
| "fmt_text (c # cs) kwargs =
     (if c = CHR ''{'' then fmt_field [] cs kwargs
      else if c = CHR ''}'' then Inl ValueError
      else (case fmt_text cs kwargs of Inl e \<Rightarrow> Inl e | Inr s \<Rightarrow> Inr (c # s)))"
| "fmt_field acc [] kwargs = Inl ValueError"
| "fmt_field acc (c # cs) kwargs =
     (if c = CHR ''}'' then
        (case replace_field acc kwargs of
           Inl e \<Rightarrow> Inl e
         | Inr s \<Rightarrow> (case fmt_text cs kwargs of Inl e \<Rightarrow> Inl e | Inr r \<Rightarrow> Inr (s @ r)))
      else fmt_field (acc @ [c]) cs kwargs)"

text \<open>
  \<^verbatim>\<open>self.__dict__\<close> of a tracker: the five instance attributes, in the order they were
  first set. \<open>str_dict\<close> is the body of \<^verbatim>\<open>__str__\<close> on such a dictionary, whatever floats
  it holds; \<open>str_tracker\<close> is \<^verbatim>\<open>__str__\<close> on a tracker of the model, whose fields are
  finite.
\<close>

definition tracker_dict ::
  "string \<Rightarrow> py_float \<Rightarrow> py_float \<Rightarrow> py_float \<Rightarrow> py_float \<Rightarrow> (string \<times> pyobj) list" where
  "tracker_dict nm v s c a =
     [(''name'', PyStr nm), (''val'', PyFloat v), (''sum'', PyFloat s), (''count'', PyFloat c),
      (''avg'', PyFloat a)]"

definition str_dict :: "(string \<times> pyobj) list \<Rightarrow> py_error + string" where
  "str_dict kwargs = fmt_text ''{name} {val:.4f} ({avg:.4f})'' kwargs"

definition dict_of :: "tracker \<Rightarrow> (string \<times> pyobj) list" where
  "dict_of self =
     tracker_dict (name self) (Finite (val self)) (Finite (sum' self)) (Finite (count self))
       (Finite (avg self))"

definition str_tracker :: "tracker \<Rightarrow> py_error + string" where
  "str_tracker self = str_dict (dict_of self)"

subsection \<open>AverageTrackerGroup\<close>

text \<open>
  The \<^verbatim>\<open>OrderedDict\<close> operations the class uses: \<^verbatim>\<open>k in d\<close>, \<^verbatim>\<open>d[k]\<close> (which raises
  \<^verbatim>\<open>KeyError\<close> on a missing key and never inserts), and \<^verbatim>\<open>d[k] = v\<close> (which keeps the
  position of a key already present and appends a new key at the end).
\<close>

definition od_contains :: "('k \<times> 'v) list \<Rightarrow> 'k \<Rightarrow> bool" where
  "od_contains d k = (k \<in> set (map fst d))"

fun od_set :: "('k \<times> 'v) list \<Rightarrow> 'k \<Rightarrow> 'v \<Rightarrow> ('k \<times> 'v) list" where
  "od_set [] k v = [(k, v)]"
| "od_set ((k', v') # d) k v = (if k' = k then (k, v) # d else (k', v') # od_set d k v)"

definition od_get :: "(string \<times> 'v) list \<Rightarrow> string \<Rightarrow> py_error + 'v" where
  "od_get d k = (case map_of d k of None \<Rightarrow> Inl (KeyError k) | Some v \<Rightarrow> Inr v)"

record group =
  storage :: "(string \<times> tracker) list"

definition group_reset :: "group \<Rightarrow> group" where
  "group_reset self = self\<lparr>storage := []\<rparr>"

text \<open>\<^verbatim>\<open>__init__\<close> only calls \<^verbatim>\<open>reset\<close>, which creates \<^verbatim>\<open>_storage\<close>.\<close>

definition AverageTrackerGroup :: "group" where
  "AverageTrackerGroup = group_reset \<lparr>storage = []\<rparr>"

text \<open>
  The values of the \<^verbatim>\<open>data\<close> dictionary: a plain number, or an iterable of numbers that
  \<^verbatim>\<open>update(*value)\<close> unpacks into positional arguments.
\<close>

datatype pyval = Num real | Iter "real list"

text \<open>
  The call \<^verbatim>\<open>tracker.update(value)\<close> or \<^verbatim>\<open>tracker.update(*value)\<close>. Unpacking binds
  one argument to \<^verbatim>\<open>value\<close> (and \<^verbatim>\<open>n\<close> keeps its default 1), two arguments to
  \<^verbatim>\<open>value\<close> and \<^verbatim>\<open>n\<close>; with none or more than two the call raises \<^verbatim>\<open>TypeError\<close>
  before the body runs.
\<close>

fun call_update :: "tracker \<Rightarrow> pyval \<Rightarrow> (py_error + unit) \<times> tracker" where
  "call_update t (Num v) = update t v 1"
| "call_update t (Iter [v]) = update t v 1"
| "call_update t (Iter [v, n]) = update t v n"
| "call_update t (Iter args) = (Inl TypeError, t)"

text \<open>
  The loop of \<^verbatim>\<open>update(data)\<close> over \<^verbatim>\<open>data.items()\<close>, an association list in the
  dictionary's order. The tracker is an object the dictionary refers to: mutating it
  keeps its key and position, so the mutated tracker is written back with \<open>od_set\<close>. An
  error ends the loop with the storage as it is at that moment.
\<close>

fun group_update :: "group \<Rightarrow> (string \<times> pyval) list \<Rightarrow> (py_error + unit) \<times> group" where
  "group_update self [] = (Inr (), self)"
| "group_update self ((nm, x) # data) =
     (let d1 = (if \<not> od_contains (storage self) nm
                then od_set (storage self) nm (AverageTracker nm)
                else storage self)
      in case od_get d1 nm of
           Inl e \<Rightarrow> (Inl e, self\<lparr>storage := d1\<rparr>)
         | Inr t \<Rightarrow>
             (case call_update t x of
                (Inl e, t') \<Rightarrow> (Inl e, self\<lparr>storage := od_set d1 nm t'\<rparr>)
              | (Inr u, t') \<Rightarrow> group_update (self\<lparr>storage := od_set d1 nm t'\<rparr>) data))"

text \<open>
  \<^verbatim>\<open>__getitem__\<close> (indexing, \<^verbatim>\<open>group[k]\<close>) and \<^verbatim>\<open>__getattr__\<close> (the method that
  attribute-style reading \<^verbatim>\<open>group.k\<close> of a tracked name ends in) have the same body.
  Neither assigns to \<^verbatim>\<open>self\<close>; the group is returned as the call leaves it.
\<close>

definition getitem :: "group \<Rightarrow> string \<Rightarrow> (py_error + real) \<times> group" where
  "getitem self k =
     (case od_get (storage self) k of
        Inl e \<Rightarrow> (Inl e, self)
      | Inr t \<Rightarrow> (Inr (item t), self))"

definition getattr :: "group \<Rightarrow> string \<Rightarrow> (py_error + real) \<times> group" where
  "getattr self k =
     (case od_get (storage self) k of
        Inl e \<Rightarrow> (Inl e, self)
      | Inr t \<Rightarrow> (Inr (item t), self))"

text \<open>
  \<^verbatim>\<open>items\<close> is a generator function. \<open>items\<close> below is the list of the pairs, each a
  name and \<^verbatim>\<open>val.item()\<close>, in the order of the dictionary.
\<close>

definition items :: "group \<Rightarrow> (string \<times> real) list" where
  "items self = map (\<lambda>(key, v). (key, item v)) (storage self)"










text \<open>\<^verbatim>\<open>sep.join(strings)\<close>, and the renderings of a group.\<close>

fun join :: "string \<Rightarrow> string list \<Rightarrow> string" where
  "join sep [] = []"
| "join sep [s] = s"
| "join sep (s # r # rest) = s @ sep @ join sep (r # rest)"

fun str_all :: "tracker list \<Rightarrow> py_error + string list" where
  "str_all [] = Inr []"
| "str_all (t # ts) =
     (case str_tracker t of
        Inl e \<Rightarrow> Inl e
      | Inr s \<Rightarrow> (case str_all ts of Inl e \<Rightarrow> Inl e | Inr ss \<Rightarrow> Inr (s # ss)))"

definition str_group :: "group \<Rightarrow> py_error + string" where
  "str_group self =
     (case str_all (map snd (storage self)) of
        Inl e \<Rightarrow> Inl e
      | Inr ss \<Rightarrow> Inr (join '' '' ss))"

definition repr_group :: "group \<Rightarrow> py_error + string" where
  "repr_group self =
     (case str_all (map snd (storage self)) of
        Inl e \<Rightarrow> Inl e
      | Inr ss \<Rightarrow> Inr (''Metric Group: '' @ join '' '' ss))"

subsection \<open>Histories of a group\<close>

text \<open>
  The operations a caller has on a group, and the group they leave behind (also when
  they raise). \<^verbatim>\<open>items\<close>, \<^verbatim>\<open>__str__\<close> and \<^verbatim>\<open>__repr__\<close> only read.
  \<open>GetAttr k\<close> is attribute-style reading that ends in \<^verbatim>\<open>__getattr__\<close>.
\<close>

datatype op =
    Update "(string \<times> pyval) list"
  | Reset
  | GetItem string
  | GetAttr string
  | Items
  | Str
  | Repr

fun exec :: "group \<Rightarrow> op \<Rightarrow> group" where
  "exec g (Update data) = snd (group_update g data)"
| "exec g Reset = group_reset g"
| "exec g (GetItem k) = snd (getitem g k)"
| "exec g (GetAttr k) = snd (getattr g k)"
| "exec g Items = g"
| "exec g Str = g"
| "exec g Repr = g"

definition run_ops :: "op list \<Rightarrow> group" where
  "run_ops ops = foldl exec AverageTrackerGroup ops"


text \<open>The names of a group, in storage order.\<close>

definition keys :: "group \<Rightarrow> string list" where
  "keys g = map fst (storage g)"

section \<open>Properties of a tracker\<close>

lemma update_fields:
  "val (snd (update self v n)) = v"
  "sum' (snd (update self v n)) = sum' self + v * n"
  "count (snd (update self v n)) = count self + n"
  "name (snd (update self v n)) = name self"
  by (simp_all add: update_def Let_def)

lemma run_updates_name: "name (run_updates self calls) = name self"
  by (induction self calls rule: run_updates.induct) (simp_all add: update_fields)

lemma fresh_tracker:
  "AverageTracker nm = \<lparr>name = nm, val = 0, sum' = 0, count = 0, avg = 0\<rparr>"
  by (simp add: AverageTracker_def reset_def)

subsection \<open>Updates that leave the count at zero\<close>

text \<open>
  Claim C2 says that an update which leaves the cumulative count at 0 skips the division
  and raises nothing. The source divides without a guard: the very first update with
  weight 0 raises \<^verbatim>\<open>ZeroDivisionError\<close>.
\<close>

theorem update_zero_count_counterexample:
  "update (AverageTracker ''loss'') 5 0
     = (Inl ZeroDivisionError, \<lparr>name = ''loss'', val = 5, sum' = 0, count = 0, avg = 0\<rparr>)"
  by (simp add: fresh_tracker update_def Let_def)

text \<open>
  Claim C2, as amended: an update with a weight that leaves the cumulative count at 0
  raises \<^verbatim>\<open>ZeroDivisionError\<close>, and \<^verbatim>\<open>avg\<close> keeps its prior value.
\<close>

theorem update_zero_count_raises:
  "count self + n = 0 \<Longrightarrow>
     fst (update self v n) = Inl ZeroDivisionError \<and> avg (snd (update self v n)) = avg self"
  by (simp add: update_def Let_def)

theorem update_zero_count_raises_witness:
  "count (AverageTracker ''loss'') + 0 = 0
   \<and> fst (update (AverageTracker ''loss'') 5 0) = Inl ZeroDivisionError
   \<and> avg (snd (update (AverageTracker ''loss'') 5 0)) = 0"
  using update_zero_count_raises [of "AverageTracker ''loss''" 0 5]
  by (simp add: fresh_tracker)



subsection \<open>Decimal rendering\<close>

lemma lt10_cases:
  "d < 10 \<Longrightarrow> d = 0 \<or> d = 1 \<or> d = 2 \<or> d = 3 \<or> d = 4 \<or> d = 5 \<or> d = 6 \<or> d = 7 \<or> d = 8 \<or> d = (9::nat)"
  by arith

lemma digit_char_digit: "d < 10 \<Longrightarrow> is_digit (digit_char d)"
  by (drule lt10_cases) (auto simp: is_digit_def digit_char_def)

lemma digit_val_char: "d < 10 \<Longrightarrow> digit_val (digit_char d) = d"
  by (drule lt10_cases) (auto simp: digit_val_def digit_char_def)

lemma int_of_str_snoc: "int_of_str (s @ [c]) = 10 * int_of_str s + digit_val c"
  by (simp add: int_of_str_def)

lemma str_nat_digits: "list_all is_digit (str_nat n)"
proof (induction n rule: str_nat.induct)
  case (1 n)
  show ?case
  proof (cases "n < 10")
    case True
    then show ?thesis by (subst str_nat.simps) (simp add: digit_char_digit)
  next
    case False
    with 1 show ?thesis by (subst str_nat.simps) (simp add: digit_char_digit)
  qed
qed

lemma int_of_str_nat: "int_of_str (str_nat n) = n"
proof (induction n rule: str_nat.induct)
  case (1 n)
  show ?case
  proof (cases "n < 10")
    case True
    then show ?thesis
      by (subst str_nat.simps) (simp add: int_of_str_def digit_val_char)
  next
    case False
    with 1 show ?thesis
      by (subst str_nat.simps) (simp add: int_of_str_snoc digit_val_char)
  qed
qed

lemma str_nat_length: "0 < p \<Longrightarrow> n < 10 ^ p \<Longrightarrow> length (str_nat n) \<le> p"
proof (induction n arbitrary: p rule: str_nat.induct)
  case (1 n)
  show ?case
  proof (cases "n < 10")
    case True
    with 1 show ?thesis by (subst str_nat.simps) simp
  next
    case False
    obtain q where p: "p = Suc q" using 1 by (cases p) auto
    with False 1 have "0 < q" by (cases q) auto
    moreover have "n div 10 < 10 ^ q" using 1 p by (simp add: less_mult_imp_div_less mult.commute)
    ultimately have "length (str_nat (n div 10)) \<le> q" using 1 False by simp
    with False show ?thesis by (subst str_nat.simps) (simp add: p)
  qed
qed

lemma int_of_str_zeros: "int_of_str (replicate k (CHR ''0'') @ s) = int_of_str s"
proof -
  have "foldl (\<lambda>a c. 10 * a + digit_val c) 0 (replicate k (CHR ''0'')) = 0"
    by (induction k) (simp_all add: digit_val_def)
  then show ?thesis by (simp add: int_of_str_def)
qed

lemma zfill_length: "length s \<le> w \<Longrightarrow> length (zfill w s) = w"
  by (simp add: zfill_def)

lemma zfill_digits:
  assumes "list_all is_digit s"
  shows "list_all is_digit (zfill w s)"
proof -
  have z: "is_digit (CHR ''0'')"
    by (simp add: is_digit_def)
  have "list_all is_digit (replicate k (CHR ''0''))" for k
    by (induction k) (simp_all add: z)
  with assms show ?thesis
    by (simp add: zfill_def)
qed

lemma zfill_value: "int_of_str (zfill w s) = int_of_str s"
  by (simp add: zfill_def int_of_str_zeros)

lemma round_half_even_near: "\<bar>real_of_int (round_half_even y) - y\<bar> \<le> 1 / 2"
  unfolding round_half_even_def Let_def by (auto; linarith)

lemma round_half_even_nonneg: "0 \<le> y \<Longrightarrow> 0 \<le> round_half_even y"
  unfolding round_half_even_def Let_def by (auto; linarith)

lemma format_f_places:
  assumes p: "0 < p"
  shows "\<exists>ip fr. format_f p x = (if x < 0 then ''-'' else '''') @ ip @ ''.'' @ fr
           \<and> length fr = p \<and> list_all is_digit (ip @ fr)
           \<and> \<bar>\<bar>x\<bar> - (real (int_of_str ip) + real (int_of_str fr) / 10 ^ p)\<bar> \<le> 1 / (2 * 10 ^ p)"
proof -
  define y where "y = \<bar>x\<bar> * 10 ^ p"
  define m where "m = nat (round_half_even y)"
  define ip where "ip = str_nat (m div 10 ^ p)"
  define fr where "fr = zfill p (str_nat (m mod 10 ^ p))"
  have f: "format_f p x = (if x < 0 then ''-'' else '''') @ ip @ ''.'' @ fr"
    using p by (simp add: format_f_def Let_def y_def m_def ip_def fr_def)
  have "length (str_nat (m mod 10 ^ p)) \<le> p"
    using p by (intro str_nat_length) simp_all
  then have l: "length fr = p"
    by (simp add: fr_def zfill_length)
  have d: "list_all is_digit (ip @ fr)"
    by (simp add: ip_def fr_def str_nat_digits zfill_digits)
  have "0 \<le> y" by (simp add: y_def)
  then have "real m = real_of_int (round_half_even y)"
    by (simp add: m_def round_half_even_nonneg)
  with round_half_even_near [of y] have near: "\<bar>real m - y\<bar> \<le> 1 / 2" by simp
  have "real (int_of_str ip) + real (int_of_str fr) / 10 ^ p
          = real (m div 10 ^ p) + real (m mod 10 ^ p) / 10 ^ p"
    by (simp add: ip_def fr_def int_of_str_nat zfill_value)
  also have "\<dots> = real m / 10 ^ p"
  proof -
    have "real (m div 10 ^ p * 10 ^ p + m mod 10 ^ p) = real m"
      by (simp only: div_mult_mod_eq)
    then have "real (m div 10 ^ p) * 10 ^ p + real (m mod 10 ^ p) = real m"
      by (simp only: of_nat_add of_nat_mult of_nat_power of_nat_numeral)
    then show ?thesis by (simp add: field_simps)
  qed
  finally have v: "real (int_of_str ip) + real (int_of_str fr) / 10 ^ p = real m / 10 ^ p" .
  have "\<bar>\<bar>x\<bar> - real m / 10 ^ p\<bar> = \<bar>y - real m\<bar> / 10 ^ p"
    by (simp add: y_def field_simps)
  also have "\<dots> \<le> (1 / 2) / 10 ^ p"
    using near by (intro divide_right_mono) (simp_all add: abs_minus_commute)
  finally have n: "\<bar>\<bar>x\<bar> - real m / 10 ^ p\<bar> \<le> 1 / (2 * 10 ^ p)" by simp
  show ?thesis
  proof (intro exI conjI)
    show "format_f p x = (if x < 0 then ''-'' else '''') @ ip @ ''.'' @ fr" by (rule f)
    show "length fr = p" by (rule l)
    show "list_all is_digit (ip @ fr)" by (rule d)
    show "\<bar>\<bar>x\<bar> - (real (int_of_str ip) + real (int_of_str fr) / 10 ^ p)\<bar> \<le> 1 / (2 * 10 ^ p)"
      unfolding v by (rule n)
  qed
qed

lemma str_nat_digit: "n < 10 \<Longrightarrow> str_nat n = [digit_char n]"
  by (simp add: str_nat.simps)

lemma str_nat_step: "10 \<le> n \<Longrightarrow> str_nat n = str_nat (n div 10) @ [digit_char (n mod 10)]"
  by (subst str_nat.simps) simp

lemma replicate_numeral: "replicate (numeral k) x = x # replicate (pred_numeral k) x"
  by (simp add: numeral_eq_Suc)

lemmas format_f_eval = format_f_def round_half_even_def Let_def zfill_def str_nat_digit
  str_nat_step digit_char_def replicate_numeral

lemma str_dict_eq:
  "str_dict (tracker_dict nm v s c a)
     = Inr (nm @ '' '' @ format_float 4 v @ '' ('' @ format_float 4 a @ '')'')"
  by (simp add: str_dict_def tracker_dict_def replace_field_def format_field_def is_digit_def
      int_of_str_def digit_val_def)

lemma format_float_finite: "format_float p (Finite x) = format_f p x"
  by (simp add: format_float_def)

lemma str_tracker_eq:
  "str_tracker self
     = Inr (name self @ '' '' @ format_f 4 (val self) @ '' ('' @ format_f 4 (avg self) @ '')'')"
  by (simp add: str_tracker_def dict_of_def str_dict_eq format_float_finite)

text \<open>
  Claim C9 says that every tracker renders \<^verbatim>\<open>val\<close> and \<^verbatim>\<open>avg\<close> with 4 decimal places.
  A tracker that was updated with a NaN or an infinite value holds NaN or an infinity
  in \<^verbatim>\<open>val\<close> and \<^verbatim>\<open>avg\<close>, and these render without any decimal place.
\<close>

theorem rendering_counterexample:
  "str_dict (tracker_dict ''loss'' NaN NaN (Finite 1) NaN) = Inr ''loss nan (nan)''
   \<and> str_dict (tracker_dict ''loss'' NegInf NegInf (Finite 1) NegInf) = Inr ''loss -inf (-inf)''"
  by (simp add: str_dict_eq format_float_def)

text \<open>
  Claim C9, as amended. The rendering of a tracker is its name, a space, \<^verbatim>\<open>val\<close>, a
  space, and \<^verbatim>\<open>avg\<close> in parentheses, whatever floats its attributes hold: the statement
  is about \<^verbatim>\<open>__str__\<close> on the attribute dictionary of a tracker, with any float for
  \<^verbatim>\<open>val\<close>, \<^verbatim>\<open>sum\<close>, \<^verbatim>\<open>count\<close> and \<^verbatim>\<open>avg\<close>. A finite \<open>x\<close> is written with 4 decimal places: a minus
  sign when \<open>x\<close> is negative, decimal digits, a point and exactly four decimal digits,
  the numeral being within half a unit of the last place of \<open>\<bar>x\<bar>\<close>; negative zero is
  written \<^verbatim>\<open>-0.0000\<close>. An infinity is written \<^verbatim>\<open>inf\<close> or \<^verbatim>\<open>-inf\<close> and a NaN \<^verbatim>\<open>nan\<close>. A
  tracker with \<^verbatim>\<open>val = 1.23456\<close> and \<^verbatim>\<open>avg = 2.0\<close> renders with \<^verbatim>\<open>1.2346\<close> and
  \<^verbatim>\<open>2.0000\<close>.
\<close>

theorem tracker_rendering:
  "str_dict (tracker_dict nm v s c a)
     = Inr (nm @ '' '' @ format_float 4 v @ '' ('' @ format_float 4 a @ '')'')
   \<and> (\<exists>ip fr. format_float 4 (Finite x) = (if x < 0 then ''-'' else '''') @ ip @ ''.'' @ fr
          \<and> length fr = 4 \<and> list_all is_digit (ip @ fr)
          \<and> \<bar>\<bar>x\<bar> - (real (int_of_str ip) + real (int_of_str fr) / 10 ^ 4)\<bar> \<le> 1 / (2 * 10 ^ 4))
   \<and> format_float 4 NegZero = ''-0.0000''
   \<and> format_float 4 PosInf = ''inf''
   \<and> format_float 4 NegInf = ''-inf''
   \<and> format_float 4 NaN = ''nan''
   \<and> str_dict (tracker_dict nm (Finite 1.23456) s c (Finite 2.0))
       = Inr (nm @ '' 1.2346 (2.0000)'')"
proof -
  have e: "format_f 4 1.23456 = ''1.2346''" "format_f 4 2.0 = ''2.0000''"
    "format_f 4 0 = ''0.0000''"
    by (simp_all add: format_f_eval)
  have ex: "str_dict (tracker_dict nm (Finite 1.23456) s c (Finite 2.0))
       = Inr (nm @ '' 1.2346 (2.0000)'')"
    unfolding str_dict_eq format_float_finite e by simp
  have pl: "\<exists>ip fr. format_float 4 (Finite x) = (if x < 0 then ''-'' else '''') @ ip @ ''.'' @ fr
          \<and> length fr = 4 \<and> list_all is_digit (ip @ fr)
          \<and> \<bar>\<bar>x\<bar> - (real (int_of_str ip) + real (int_of_str fr) / 10 ^ 4)\<bar> \<le> 1 / (2 * 10 ^ 4)"
    unfolding format_float_finite by (rule format_f_places) simp
  have sp: "format_float 4 NegZero = ''-0.0000''" "format_float 4 PosInf = ''inf''"
    "format_float 4 NegInf = ''-inf''" "format_float 4 NaN = ''nan''"
    by (simp_all add: format_float_def e)
  show ?thesis
    by (intro conjI; (fact str_dict_eq | fact))
qed

theorem tracker_rendering_witness:
  "str_dict (tracker_dict ''loss'' (Finite (694995494495815 / 562949953421312)) (Finite 4) (Finite 2)
       (Finite 2)) = Inr ''loss 1.2346 (2.0000)''
   \<and> str_dict (tracker_dict ''loss'' (Finite 1.23456) (Finite 4) (Finite 2) (Finite 2.0))
       = Inr ''loss 1.2346 (2.0000)''
   \<and> str_dict (tracker_dict ''d'' (Finite (- 0.00001)) (Finite 0) (Finite 1) (Finite 0.03125))
       = Inr ''d -0.0000 (0.0312)''
   \<and> str_dict (tracker_dict ''z'' (Finite 0) NegZero (Finite (- 1)) NegZero)
       = Inr ''z 0.0000 (-0.0000)''"
  using tracker_rendering [where nm = "''loss''"
      and v = "Finite (694995494495815 / 562949953421312)" and s = "Finite 4" and c = "Finite 2"
      and a = "Finite 2" and x = 0]
    tracker_rendering [where nm = "''d''" and v = "Finite (- 0.00001)" and s = "Finite 0"
      and c = "Finite 1" and a = "Finite 0.03125" and x = 0]
    tracker_rendering [where nm = "''z''" and v = "Finite 0" and s = "NegZero"
      and c = "Finite (- 1)" and a = "NegZero" and x = 0]
  by (simp add: format_float_def format_f_eval)

subsection \<open>Reset\<close>

text \<open>
  Claim C5. \<^verbatim>\<open>reset()\<close> sets \<^verbatim>\<open>val\<close>, \<^verbatim>\<open>sum\<close>, \<^verbatim>\<open>count\<close> and \<^verbatim>\<open>avg\<close> to 0 and keeps
  the name, whatever the tracker held before (after any history of updates on a tracker
  constructed with a name, the result is the zero state under that name); the reads
  \<^verbatim>\<open>item()\<close>, the call form and the rendering then give the zero state. The reads are
  functions of the state alone, so they give it until the next update.
\<close>

theorem tracker_reset:
  "reset self = \<lparr>name = name self, val = 0, sum' = 0, count = 0, avg = 0\<rparr>
   \<and> item (reset self) = 0
   \<and> call (reset self) = 0
   \<and> str_tracker (reset self) = Inr (name self @ '' 0.0000 (0.0000)'')
   \<and> reset (run_updates (AverageTracker nm) calls)
       = \<lparr>name = nm, val = 0, sum' = 0, count = 0, avg = 0\<rparr>"
proof -
  have r: "reset t = \<lparr>name = name t, val = 0, sum' = 0, count = 0, avg = 0\<rparr>" for t
    by (simp add: reset_def)
  have "format_f 4 0 = ''0.0000''"
    by (simp add: format_f_eval)
  then have "str_tracker (reset self) = Inr (name self @ '' 0.0000 (0.0000)'')"
    by (simp add: str_tracker_eq r)
  moreover have "name (run_updates (AverageTracker nm) calls) = nm"
    by (simp add: run_updates_name fresh_tracker)
  ultimately show ?thesis
    by (simp add: r item_def call_def)
qed

theorem tracker_reset_witness:
  "reset (run_updates (AverageTracker ''loss'') [(2, 3), (8, 1)]) = AverageTracker ''loss''
   \<and> item (reset (run_updates (AverageTracker ''loss'') [(2, 3), (8, 1)])) = 0
   \<and> str_tracker (reset (run_updates (AverageTracker ''loss'') [(2, 3), (8, 1)]))
       = Inr ''loss 0.0000 (0.0000)''"
proof -
  let ?t = "run_updates (AverageTracker ''loss'') [(2, 3), (8, 1)]"
  note h = tracker_reset [of ?t "''loss''" "[(2, 3), (8, 1)]"]
  have n: "name ?t = ''loss''"
    by (simp only: run_updates_name fresh_tracker tracker.simps)
  from h have a: "reset ?t = AverageTracker ''loss''"
    unfolding fresh_tracker by blast
  from h have b: "item (reset ?t) = 0"
    by blast
  from h have "str_tracker (reset ?t) = Inr (name ?t @ '' 0.0000 (0.0000)'')"
    by blast
  then have c: "str_tracker (reset ?t) = Inr ''loss 0.0000 (0.0000)''"
    unfolding n by simp
  from a b c show ?thesis
    by blast
qed

section \<open>Properties of a group\<close>

lemma map_of_od_set: "map_of (od_set d k v) = (map_of d)(k \<mapsto> v)"
  by (induction d) auto

lemma keys_od_set:
  "map fst (od_set d k v) = (if k \<in> set (map fst d) then map fst d else map fst d @ [k])"
  by (induction d) (force+)

lemma od_set_twice: "od_set (od_set d k a) k b = od_set d k b"
  by (induction d) auto

lemma od_set_entries:
  "(k', v') \<in> set (od_set d k v) \<Longrightarrow> (k', v') = (k, v) \<or> (k', v') \<in> set d"
  by (induction d) (auto split: if_splits)

lemma od_get_Some: "map_of d k = Some v \<Longrightarrow> od_get d k = Inr v"
  by (simp add: od_get_def)


lemma od_contains_map_of: "od_contains d k = (map_of d k \<noteq> None)"
  by (simp add: od_contains_def map_of_eq_None_iff)

text \<open>One round of the loop of \<open>group_update\<close>.\<close>

lemma group_update_Cons:
  "group_update g ((nm, x) # data) =
     (let t0 = (case map_of (storage g) nm of None \<Rightarrow> AverageTracker nm | Some t \<Rightarrow> t);
          r = call_update t0 x;
          g1 = g\<lparr>storage := od_set (storage g) nm (snd r)\<rparr>
      in case fst r of Inl e \<Rightarrow> (Inl e, g1) | Inr u \<Rightarrow> group_update g1 data)"
proof (cases "map_of (storage g) nm")
  case None
  then have "\<not> od_contains (storage g) nm"
    by (simp add: od_contains_map_of)
  moreover have "od_get (od_set (storage g) nm (AverageTracker nm)) nm = Inr (AverageTracker nm)"
    by (simp add: od_get_def map_of_od_set)
  ultimately show ?thesis
    using None by (simp add: Let_def od_set_twice split: prod.splits sum.splits)
next
  case (Some t)
  then have "od_contains (storage g) nm"
    by (simp add: od_contains_map_of)
  moreover have "od_get (storage g) nm = Inr t"
    using Some by (rule od_get_Some)
  ultimately show ?thesis
    using Some by (simp add: Let_def split: prod.splits sum.splits)
qed

lemma group_update_keys_step:
  "keys (g\<lparr>storage := od_set (storage g) nm t\<rparr>)
     = (if nm \<in> set (keys g) then keys g else keys g @ [nm])"
  by (simp add: keys_def keys_od_set)

declare group_update.simps(2) [simp del]

lemma call_update_name: "name (snd (call_update t x)) = name t"
  by (induction t x rule: call_update.induct) (simp_all add: update_fields)

lemma group_update_frame:
  "nm \<notin> set (map fst data) \<Longrightarrow>
     map_of (storage (snd (group_update g data))) nm = map_of (storage g) nm"
proof (induction data arbitrary: g)
  case Nil
  then show ?case by simp
next
  case (Cons e data)
  obtain k y where e: "e = (k, y)" by (cases e)
  from Cons.prems have k: "k \<noteq> nm" and rest: "nm \<notin> set (map fst data)"
    by (auto simp: e)
  show ?case
    using k Cons.IH [OF rest]
    by (simp add: e group_update_Cons Let_def map_of_od_set split: sum.splits)
qed

lemma group_update_lookup:
  assumes "distinct (map fst (pre @ (nm, x) # post))"
    and "fst (group_update g pre) = Inr ()"
  shows "map_of (storage (snd (group_update g (pre @ (nm, x) # post)))) nm
           = Some (snd (call_update
                (case map_of (storage g) nm of None \<Rightarrow> AverageTracker nm | Some t \<Rightarrow> t) x))"
  using assms
proof (induction pre arbitrary: g)
  case Nil
  then have "nm \<notin> set (map fst post)" by simp
  then show ?case
    by (simp add: group_update_Cons Let_def map_of_od_set group_update_frame split: sum.splits)
next
  case (Cons e pre)
  obtain k y where e: "e = (k, y)" by (cases e)
  define t0 where "t0 = (case map_of (storage g) k of None \<Rightarrow> AverageTracker k | Some t \<Rightarrow> t)"
  define g1 where "g1 = g\<lparr>storage := od_set (storage g) k (snd (call_update t0 y))\<rparr>"
  from Cons.prems(1) have k: "k \<noteq> nm" and d: "distinct (map fst (pre @ (nm, x) # post))"
    by (auto simp: e)
  from Cons.prems(2) have ok: "fst (call_update t0 y) = Inr ()"
    and rest: "fst (group_update g1 pre) = Inr ()"
    by (auto simp: e group_update_Cons Let_def t0_def g1_def split: sum.splits)
  from ok have step: "group_update g ((k, y) # data) = group_update g1 data" for data
    by (simp add: group_update_Cons Let_def t0_def g1_def)
  have same: "map_of (storage g1) nm = map_of (storage g) nm"
    using k by (simp add: g1_def map_of_od_set)
  from Cons.IH [OF d rest] show ?case
    by (simp add: e step same)
qed




lemma group_update_keys_grow:
  "\<exists>new. keys (snd (group_update g data)) = keys g @ new"
proof (induction data arbitrary: g)
  case Nil
  then show ?case by simp
next
  case (Cons e data)
  obtain k y where e: "e = (k, y)" by (cases e)
  define t0 where "t0 = (case map_of (storage g) k of None \<Rightarrow> AverageTracker k | Some t \<Rightarrow> t)"
  define g1 where "g1 = g\<lparr>storage := od_set (storage g) k (snd (call_update t0 y))\<rparr>"
  have k1: "\<exists>new. keys g1 = keys g @ new"
    by (simp add: g1_def group_update_keys_step)
  show ?case
  proof (cases "fst (call_update t0 y)")
    case (Inl err)
    then have "group_update g (e # data) = (Inl err, g1)"
      by (simp add: e group_update_Cons Let_def t0_def g1_def)
    with k1 show ?thesis by simp
  next
    case (Inr u)
    then have "group_update g (e # data) = group_update g1 data"
      by (simp add: e group_update_Cons Let_def t0_def g1_def)
    with k1 Cons.IH [of g1] show ?thesis by auto
  qed
qed

text \<open>The invariant of the storage: a tracker is stored under its own name, once.\<close>

lemma group_update_names:
  assumes "\<forall>(k, t)\<in>set (storage g). name t = k"
  shows "\<forall>(k, t)\<in>set (storage (snd (group_update g data))). name t = k"
  using assms
proof (induction data arbitrary: g)
  case Nil
  then show ?case by simp
next
  case (Cons e data)
  obtain k y where e: "e = (k, y)" by (cases e)
  define t0 where "t0 = (case map_of (storage g) k of None \<Rightarrow> AverageTracker k | Some t \<Rightarrow> t)"
  define g1 where "g1 = g\<lparr>storage := od_set (storage g) k (snd (call_update t0 y))\<rparr>"
  have "name t0 = k"
  proof (cases "map_of (storage g) k")
    case None
    then show ?thesis by (simp add: t0_def fresh_tracker)
  next
    case (Some t)
    then have "(k, t) \<in> set (storage g)" by (rule map_of_SomeD)
    with Cons.prems Some show ?thesis by (auto simp: t0_def)
  qed
  then have inv1: "\<forall>(k, t)\<in>set (storage g1). name t = k"
    using Cons.prems by (auto simp: g1_def call_update_name dest!: od_set_entries)
  show ?case
  proof (cases "fst (call_update t0 y)")
    case (Inl err)
    then have "group_update g (e # data) = (Inl err, g1)"
      by (simp add: e group_update_Cons Let_def t0_def g1_def)
    with inv1 show ?thesis by simp
  next
    case (Inr u)
    then have "group_update g (e # data) = group_update g1 data"
      by (simp add: e group_update_Cons Let_def t0_def g1_def)
    with Cons.IH [OF inv1] show ?thesis by simp
  qed
qed

lemma group_update_distinct:
  assumes "distinct (keys g)"
  shows "distinct (keys (snd (group_update g data)))"
  using assms
proof (induction data arbitrary: g)
  case Nil
  then show ?case by simp
next
  case (Cons e data)
  obtain k y where e: "e = (k, y)" by (cases e)
  define t0 where "t0 = (case map_of (storage g) k of None \<Rightarrow> AverageTracker k | Some t \<Rightarrow> t)"
  define g1 where "g1 = g\<lparr>storage := od_set (storage g) k (snd (call_update t0 y))\<rparr>"
  have d1: "distinct (keys g1)"
    using Cons.prems by (simp add: g1_def group_update_keys_step)
  show ?case
  proof (cases "fst (call_update t0 y)")
    case (Inl err)
    then have "group_update g (e # data) = (Inl err, g1)"
      by (simp add: e group_update_Cons Let_def t0_def g1_def)
    with d1 show ?thesis by simp
  next
    case (Inr u)
    then have "group_update g (e # data) = group_update g1 data"
      by (simp add: e group_update_Cons Let_def t0_def g1_def)
    with Cons.IH [OF d1] show ?thesis by simp
  qed
qed

lemma getitem_state: "snd (getitem g k) = g"
  by (simp add: getitem_def split: sum.splits)

lemma getattr_state: "snd (getattr g k) = g"
  by (simp add: getattr_def split: sum.splits)


lemma fresh_group: "AverageTrackerGroup = \<lparr>storage = []\<rparr>"
  by (simp add: AverageTrackerGroup_def group_reset_def)

lemma exec_names:
  assumes "\<forall>(k, t)\<in>set (storage g). name t = k"
  shows "\<forall>(k, t)\<in>set (storage (exec g op)). name t = k"
proof (cases op)
  case (Update data)
  with group_update_names [OF assms, of data] show ?thesis by simp
next
  case Reset
  then show ?thesis by (simp add: group_reset_def)
qed (use assms in \<open>simp_all add: getitem_state getattr_state\<close>)

lemma exec_distinct:
  assumes "distinct (keys g)"
  shows "distinct (keys (exec g op))"
proof (cases op)
  case (Update data)
  with group_update_distinct [OF assms, of data] show ?thesis by simp
next
  case Reset
  then show ?thesis by (simp add: group_reset_def keys_def)
qed (use assms in \<open>simp_all add: getitem_state getattr_state\<close>)

lemma run_ops_snoc: "run_ops (ops @ [op]) = exec (run_ops ops) op"
  by (simp add: run_ops_def)

lemma run_ops_names: "\<forall>(k, t)\<in>set (storage (run_ops ops)). name t = k"
proof (induction ops rule: rev_induct)
  case Nil
  then show ?case by (simp add: run_ops_def fresh_group)
next
  case (snoc op ops)
  show ?case
    unfolding run_ops_snoc using snoc by (rule exec_names)
qed

lemma run_ops_distinct: "distinct (keys (run_ops ops))"
proof (induction ops rule: rev_induct)
  case Nil
  then show ?case by (simp add: run_ops_def fresh_group keys_def)
next
  case (snoc op ops)
  show ?case
    unfolding run_ops_snoc using snoc by (rule exec_distinct)
qed

lemma stored_tracker:
  assumes "\<forall>(k, t)\<in>set (storage g). name t = k" and "nm \<in> set (keys g)"
  shows "\<exists>t. od_get (storage g) nm = Inr t \<and> name t = nm"
proof -
  from assms(2) obtain t where t: "map_of (storage g) nm = Some t"
    by (cases "map_of (storage g) nm") (auto simp: keys_def map_of_eq_None_iff)
  then have "(nm, t) \<in> set (storage g)" by (rule map_of_SomeD)
  with assms(1) have "name t = nm" by auto
  with t show ?thesis by (simp add: od_get_def)
qed

lemmas group_eval = group_update_Cons Let_def update_def fresh_tracker fresh_group
  getitem_def getattr_def od_get_def item_def keys_def items_def group_reset_def

lemma group_update_append:
  "fst (group_update g pre) = Inr () \<Longrightarrow>
     group_update g (pre @ rest) = group_update (snd (group_update g pre)) rest"
proof (induction pre arbitrary: g)
  case Nil
  then show ?case by simp
next
  case (Cons e pre)
  obtain k y where e: "e = (k, y)" by (cases e)
  define t0 where "t0 = (case map_of (storage g) k of None \<Rightarrow> AverageTracker k | Some t \<Rightarrow> t)"
  define g1 where "g1 = g\<lparr>storage := od_set (storage g) k (snd (call_update t0 y))\<rparr>"
  from Cons.prems have ok: "fst (call_update t0 y) = Inr ()"
    and rest: "fst (group_update g1 pre) = Inr ()"
    by (auto simp: e group_update_Cons Let_def t0_def g1_def split: sum.splits)
  from ok have step: "group_update g ((k, y) # data) = group_update g1 data" for data
    by (simp add: group_update_Cons Let_def t0_def g1_def)
  from Cons.IH [OF rest] show ?case
    by (simp add: e step)
qed

lemma group_update_raises:
  assumes "fst (call_update (case map_of (storage g) nm of None \<Rightarrow> AverageTracker nm | Some t \<Rightarrow> t) x)
             = Inl e"
  shows "fst (group_update g ((nm, x) # post)) = Inl e"
  using assms by (simp add: group_update_Cons Let_def)

lemma group_update_raises_frame:
  assumes "fst (call_update (case map_of (storage g) nm of None \<Rightarrow> AverageTracker nm | Some t \<Rightarrow> t) x)
             = Inl e"
    and "k \<noteq> nm"
  shows "map_of (storage (snd (group_update g ((nm, x) # post)))) k = map_of (storage g) k"
  using assms by (simp add: group_update_Cons Let_def map_of_od_set)

text \<open>
  Claim C3 says that \<^verbatim>\<open>update(data)\<close> creates a tracker for every name in \<open>data\<close> that is
  not in storage yet, and passes every value on. The loop has no handler: when the
  update of one entry raises, the names after it are never looked at. On a new group,
  \<^verbatim>\<open>update({'c': (1, 0), 'd': 1})\<close> raises at \<^verbatim>\<open>c\<close> and leaves no tracker for \<^verbatim>\<open>d\<close>.
\<close>

theorem group_update_stops_counterexample:
  "group_update AverageTrackerGroup [(''c'', Iter [1, 0]), (''d'', Num 1)]
     = (Inl ZeroDivisionError,
        \<lparr>storage = [(''c'', \<lparr>name = ''c'', val = 1, sum' = 0, count = 0, avg = 0\<rparr>)]\<rparr>)
   \<and> map_of (storage (snd (group_update AverageTrackerGroup
         [(''c'', Iter [1, 0]), (''d'', Num 1)]))) ''d'' = None"
  by (simp add: group_eval)

text \<open>
  Claim C3, as amended. A call \<^verbatim>\<open>update(data)\<close> treats each entry \<open>(nm, x)\<close> of \<open>data\<close> that
  its loop reaches (the entries before it did not raise; the names of a dictionary are
  distinct) as follows: the tracker it works on is the one stored under \<open>nm\<close>, or a new
  zero-initialised \<open>AverageTracker nm\<close> when \<open>nm\<close> is not in storage yet; that tracker
  receives the call, and is what the storage holds under \<open>nm\<close> when \<^verbatim>\<open>update(data)\<close>
  ends. The call is \<^verbatim>\<open>update(v)\<close> with the default weight 1 for a plain number \<open>v\<close>,
  and \<^verbatim>\<open>update(v, n)\<close> for the iterable of \<open>v\<close> and \<open>n\<close>. When the call raises,
  \<^verbatim>\<open>update(data)\<close> raises the same error, and the names after \<open>nm\<close> have in storage what
  they had before.
\<close>

theorem group_update_entry:
  assumes "distinct (map fst (pre @ (nm, x) # post))"
    and "fst (group_update g pre) = Inr ()"
  shows "map_of (storage (snd (group_update g (pre @ (nm, x) # post)))) nm
           = Some (snd (call_update
                (case map_of (storage g) nm of None \<Rightarrow> AverageTracker nm | Some t \<Rightarrow> t) x))
         \<and> call_update t (Num v) = update t v 1
         \<and> call_update t (Iter [v, n]) = update t v n
         \<and> (\<forall>e. fst (call_update
                (case map_of (storage g) nm of None \<Rightarrow> AverageTracker nm | Some t \<Rightarrow> t) x) = Inl e
              \<longrightarrow> fst (group_update g (pre @ (nm, x) # post)) = Inl e
                \<and> (\<forall>k\<in>set (map fst post).
                      map_of (storage (snd (group_update g (pre @ (nm, x) # post)))) k
                        = map_of (storage g) k))"
proof -
  let ?g1 = "snd (group_update g pre)"
  let ?t0 = "case map_of (storage g) nm of None \<Rightarrow> AverageTracker nm | Some t \<Rightarrow> t"
  from assms(1) have nm: "nm \<notin> set (map fst pre)"
    by auto
  have same: "map_of (storage ?g1) k = map_of (storage g) k" if "k \<notin> set (map fst pre)" for k
    using that by (rule group_update_frame)
  have app: "group_update g (pre @ (nm, x) # post) = group_update ?g1 ((nm, x) # post)"
    using assms(2) by (rule group_update_append)
  have "fst (group_update g (pre @ (nm, x) # post)) = Inl e
        \<and> (\<forall>k\<in>set (map fst post).
              map_of (storage (snd (group_update g (pre @ (nm, x) # post)))) k
                = map_of (storage g) k)"
    if e: "fst (call_update ?t0 x) = Inl e" for e
  proof (intro conjI ballI)
    from e have e1: "fst (call_update
        (case map_of (storage ?g1) nm of None \<Rightarrow> AverageTracker nm | Some t \<Rightarrow> t) x) = Inl e"
      by (simp only: same [OF nm])
    show "fst (group_update g (pre @ (nm, x) # post)) = Inl e"
      unfolding app using e1 by (rule group_update_raises)
    fix k
    assume k: "k \<in> set (map fst post)"
    with assms(1) have "k \<noteq> nm" and "k \<notin> set (map fst pre)"
      by auto
    with group_update_raises_frame [OF e1, of k post] same [of k]
    show "map_of (storage (snd (group_update g (pre @ (nm, x) # post)))) k = map_of (storage g) k"
      unfolding app by simp
  qed
  with group_update_lookup [OF assms] show ?thesis
    by simp
qed

theorem group_update_entry_witness:
  "distinct (map fst ([(''b'', Num 1)] @ (''a'', Iter [8, 1]) # []))
   \<and> fst (group_update (snd (group_update AverageTrackerGroup [(''a'', Iter [2, 3])]))
            [(''b'', Num 1)]) = Inr ()
   \<and> map_of (storage (snd (group_update (snd (group_update AverageTrackerGroup [(''a'', Iter [2, 3])]))
            ([(''b'', Num 1)] @ (''a'', Iter [8, 1]) # [])))) ''a''
       = Some \<lparr>name = ''a'', val = 8, sum' = 14, count = 4, avg = 7 / 2\<rparr>
   \<and> fst (getitem (snd (group_update (snd (group_update AverageTrackerGroup [(''a'', Iter [2, 3])]))
            [(''a'', Iter [8, 1])])) ''a'') = Inr ((2 * 3 + 8 * 1) / (3 + 1))
   \<and> fst (getitem (snd (group_update (snd (group_update AverageTrackerGroup [(''a'', Num 2)]))
            [(''a'', Num 4)])) ''a'') = Inr 3"
  using group_update_entry [of "[(''b'', Num 1)]" "''a''" "Iter [8, 1]" "[]"
      "snd (group_update AverageTrackerGroup [(''a'', Iter [2, 3])])" "AverageTracker ''a''" 0 0]
  by (simp add: group_eval)



text \<open>
  Claim C6. \<^verbatim>\<open>reset()\<close> of a group empties the storage. Every other operation keeps the
  names the storage has, in their order, and at most appends names: no name is removed
  except by \<^verbatim>\<open>reset\<close>.
\<close>

theorem group_reset_forgets:
  "storage (group_reset g) = []
   \<and> keys (exec g Reset) = []
   \<and> (op \<noteq> Reset \<longrightarrow>
        (\<exists>new. keys (exec g op) = keys g @ new) \<and> set (keys g) \<subseteq> set (keys (exec g op)))"
proof -
  have "\<exists>new. keys (exec g op) = keys g @ new" if "op \<noteq> Reset"
  proof (cases op)
    case (Update data)
    with group_update_keys_grow [of g data] show ?thesis by simp
  qed (use that in \<open>simp_all add: getitem_state getattr_state\<close>)
  then have "op \<noteq> Reset \<longrightarrow>
      (\<exists>new. keys (exec g op) = keys g @ new) \<and> set (keys g) \<subseteq> set (keys (exec g op))"
    by auto
  then show ?thesis
    by (simp add: group_reset_def keys_def)
qed

theorem group_reset_forgets_witness:
  "Update [(''c'', Iter [1, 0]), (''d'', Num 1)] \<noteq> Reset
   \<and> keys (snd (group_update AverageTrackerGroup [(''a'', Num 2), (''b'', Num 3)])) = [''a'', ''b'']
   \<and> keys (exec (snd (group_update AverageTrackerGroup [(''a'', Num 2), (''b'', Num 3)]))
             (Update [(''c'', Iter [1, 0]), (''d'', Num 1)])) = [''a'', ''b'', ''c'']
   \<and> set [''a'', ''b''] \<subseteq> set (keys (exec (snd (group_update AverageTrackerGroup [(''a'', Num 2), (''b'', Num 3)]))
             (Update [(''c'', Iter [1, 0]), (''d'', Num 1)])))
   \<and> keys (exec (snd (group_update AverageTrackerGroup [(''a'', Num 2), (''b'', Num 3)])) Reset) = []"
  using group_reset_forgets [of "snd (group_update AverageTrackerGroup [(''a'', Num 2), (''b'', Num 3)])"
      "Update [(''c'', Iter [1, 0]), (''d'', Num 1)]"]
  by (simp add: group_eval)

text \<open>
  Claim C8. In every group that a sequence of operations produces from a newly
  constructed one, every key of the storage maps to a tracker whose name is that key
  (and the keys are distinct).
\<close>

theorem storage_invariant:
  "(\<forall>nm\<in>set (keys (run_ops ops)).
      \<exists>t. od_get (storage (run_ops ops)) nm = Inr t \<and> name t = nm)
   \<and> distinct (keys (run_ops ops))"
  using stored_tracker [OF run_ops_names] run_ops_distinct by blast

theorem storage_invariant_witness:
  "keys (run_ops [Update [(''x'', Num 1)], Reset, GetAttr ''x'',
       Update [(''a'', Num 2), (''b'', Iter [1, 0]), (''c'', Num 3)], GetItem ''zz'', Items])
     = [''a'', ''b'']
   \<and> (\<exists>t. od_get (storage (run_ops [Update [(''x'', Num 1)], Reset, GetAttr ''x'',
       Update [(''a'', Num 2), (''b'', Iter [1, 0]), (''c'', Num 3)], GetItem ''zz'', Items])) ''b'' = Inr t
        \<and> name t = ''b'')"
proof -
  let ?ops = "[Update [(''x'', Num 1)], Reset, GetAttr ''x'',
       Update [(''a'', Num 2), (''b'', Iter [1, 0]), (''c'', Num 3)], GetItem ''zz'', Items]"
  have k: "keys (run_ops ?ops) = [''a'', ''b'']"
    by (simp add: run_ops_def group_eval)
  then have "''b'' \<in> set (keys (run_ops ?ops))"
    by simp
  with storage_invariant [of ?ops] k show ?thesis
    by blast
qed





subsection \<open>The generator of \<open>items\<close>\<close>

















subsection \<open>Renderings of a group\<close>

lemma str_all_ok:
  "str_all ts = Inr (map (\<lambda>t. name t @ '' '' @ format_f 4 (val t) @ '' ('' @ format_f 4 (avg t) @ '')'') ts)"
  by (induction ts) (simp_all add: str_tracker_eq)

lemma str_group_example:
  "str_group (snd (group_update AverageTrackerGroup [(''a'', Num 2), (''b'', Iter [1, 3])]))
     = Inr ''a 2.0000 (2.0000) b 1.0000 (1.0000)''"
  "repr_group (snd (group_update AverageTrackerGroup [(''a'', Num 2), (''b'', Iter [1, 3])]))
     = Inr ''Metric Group: a 2.0000 (2.0000) b 1.0000 (1.0000)''"
proof -
  have g: "snd (group_update AverageTrackerGroup [(''a'', Num 2), (''b'', Iter [1, 3])])
      = \<lparr>storage = [(''a'', \<lparr>name = ''a'', val = 2, sum' = 2, count = 1, avg = 2\<rparr>),
           (''b'', \<lparr>name = ''b'', val = 1, sum' = 3, count = 3, avg = 1\<rparr>)]\<rparr>"
    by (simp add: group_eval)
  have f: "format_f 4 2 = ''2.0000''" "format_f 4 1 = ''1.0000''"
    by (simp_all add: format_f_eval)
  show "str_group (snd (group_update AverageTrackerGroup [(''a'', Num 2), (''b'', Iter [1, 3])]))
     = Inr ''a 2.0000 (2.0000) b 1.0000 (1.0000)''"
    by (simp add: g f str_group_def str_all_ok)
  show "repr_group (snd (group_update AverageTrackerGroup [(''a'', Num 2), (''b'', Iter [1, 3])]))
     = Inr ''Metric Group: a 2.0000 (2.0000) b 1.0000 (1.0000)''"
    by (simp add: g f repr_group_def str_all_ok)
qed

end
